theory Spec2Isabelle
  imports Main "HOL-Library.Word"
begin

unbundle bit_operations_syntax

section \<open>The MD5 object of hashlib\<close>

text \<open>
  \<^verbatim>\<open>scripts/download.py\<close> hashes with \<^verbatim>\<open>hashlib.md5()\<close>: an object that is
  fed with \<^verbatim>\<open>update\<close> and read with \<^verbatim>\<open>hexdigest\<close>. The object is modelled after
  RFC 1321: four 32-bit registers, the bytes of the block that is not yet full, and the number
  of bytes fed so far.
\<close>

type_synonym byte = "8 word"
type_synonym bytes = "byte list"
type_synonym regs = "32 word \<times> 32 word \<times> 32 word \<times> 32 word"

definition md5_K :: "32 word list" where
  "md5_K =
    [0xd76aa478, 0xe8c7b756, 0x242070db, 0xc1bdceee,
     0xf57c0faf, 0x4787c62a, 0xa8304613, 0xfd469501,
     0x698098d8, 0x8b44f7af, 0xffff5bb1, 0x895cd7be,
     0x6b901122, 0xfd987193, 0xa679438e, 0x49b40821,
     0xf61e2562, 0xc040b340, 0x265e5a51, 0xe9b6c7aa,
     0xd62f105d, 0x02441453, 0xd8a1e681, 0xe7d3fbc8,
     0x21e1cde6, 0xc33707d6, 0xf4d50d87, 0x455a14ed,
     0xa9e3e905, 0xfcefa3f8, 0x676f02d9, 0x8d2a4c8a,
     0xfffa3942, 0x8771f681, 0x6d9d6122, 0xfde5380c,
     0xa4beea44, 0x4bdecfa9, 0xf6bb4b60, 0xbebfbc70,
     0x289b7ec6, 0xeaa127fa, 0xd4ef3085, 0x04881d05,
     0xd9d4d039, 0xe6db99e5, 0x1fa27cf8, 0xc4ac5665,
     0xf4292244, 0x432aff97, 0xab9423a7, 0xfc93a039,
     0x655b59c3, 0x8f0ccc92, 0xffeff47d, 0x85845dd1,
     0x6fa87e4f, 0xfe2ce6e0, 0xa3014314, 0x4e0811a1,
     0xf7537e82, 0xbd3af235, 0x2ad7d2bb, 0xeb86d391]"

definition md5_S :: "nat list" where
  "md5_S =
    [7, 12, 17, 22, 7, 12, 17, 22, 7, 12, 17, 22, 7, 12, 17, 22,
     5, 9, 14, 20, 5, 9, 14, 20, 5, 9, 14, 20, 5, 9, 14, 20,
     4, 11, 16, 23, 4, 11, 16, 23, 4, 11, 16, 23, 4, 11, 16, 23,
     6, 10, 15, 21, 6, 10, 15, 21, 6, 10, 15, 21, 6, 10, 15, 21]"

definition md5_init :: regs where
  "md5_init = (0x67452301, 0xefcdab89, 0x98badcfe, 0x10325476)"

definition rotl32 :: "32 word \<Rightarrow> nat \<Rightarrow> 32 word" where
  "rotl32 x n = push_bit n x OR drop_bit (32 - n) x"

text \<open>The auxiliary function and the message word of step \<open>i\<close> (four rounds of 16 steps).\<close>

definition md5_mix :: "nat \<Rightarrow> 32 word \<Rightarrow> 32 word \<Rightarrow> 32 word \<Rightarrow> 32 word" where
  "md5_mix i b c d =
     (if i < 16 then (b AND c) OR (NOT b AND d)
      else if i < 32 then (d AND b) OR (NOT d AND c)
      else if i < 48 then b XOR c XOR d
      else c XOR (b OR NOT d))"

definition md5_index :: "nat \<Rightarrow> nat" where
  "md5_index i =
     (if i < 16 then i
      else if i < 32 then (5 * i + 1) mod 16
      else if i < 48 then (3 * i + 5) mod 16
      else (7 * i) mod 16)"

definition md5_step :: "32 word list \<Rightarrow> nat \<Rightarrow> regs \<Rightarrow> regs" where
  "md5_step m i r =
     (case r of (a, b, c, d) \<Rightarrow>
        let f = md5_mix i b c d + a + md5_K ! i + m ! md5_index i
        in (d, b + rotl32 f (md5_S ! i), b, c))"

text \<open>Words are read from the block and written to the digest least significant byte first.\<close>

fun le_words :: "bytes \<Rightarrow> 32 word list" where
  "le_words (b0 # b1 # b2 # b3 # rest) =
     (ucast b0 OR push_bit 8 (ucast b1) OR push_bit 16 (ucast b2) OR push_bit 24 (ucast b3))
       # le_words rest"
| "le_words _ = []"

definition word_bytes :: "32 word \<Rightarrow> bytes" where
  "word_bytes w = [ucast w, ucast (drop_bit 8 w), ucast (drop_bit 16 w), ucast (drop_bit 24 w)]"

definition length_bytes :: "64 word \<Rightarrow> bytes" where
  "length_bytes n =
     [ucast n, ucast (drop_bit 8 n), ucast (drop_bit 16 n), ucast (drop_bit 24 n),
      ucast (drop_bit 32 n), ucast (drop_bit 40 n), ucast (drop_bit 48 n), ucast (drop_bit 56 n)]"

definition md5_compress :: "regs \<Rightarrow> bytes \<Rightarrow> regs" where
  "md5_compress r block =
     (case r of (a0, b0, c0, d0) \<Rightarrow>
        case fold (md5_step (le_words block)) [0..<64] r of (a, b, c, d) \<Rightarrow>
          (a0 + a, b0 + b, c0 + c, d0 + d))"

text \<open>Every full 64-byte block is compressed into the registers; the rest is kept.\<close>

function md5_absorb :: "regs \<Rightarrow> bytes \<Rightarrow> regs \<times> bytes" where
  "md5_absorb r xs =
     (if 64 \<le> length xs then md5_absorb (md5_compress r (take 64 xs)) (drop 64 xs)
      else (r, xs))"
  by pat_completeness auto
termination
  by (relation "measure (\<lambda>(r, xs). length xs)") auto

declare md5_absorb.simps [simp del]

record md5 =
  md5_regs :: regs
  md5_buf :: bytes
  md5_count :: nat

definition md5_new :: md5 where
  "md5_new = \<lparr>md5_regs = md5_init, md5_buf = [], md5_count = 0\<rparr>"

definition md5_update :: "md5 \<Rightarrow> bytes \<Rightarrow> md5" where
  "md5_update h data =
     (case md5_absorb (md5_regs h) (md5_buf h @ data) of (r, rest) \<Rightarrow>
        \<lparr>md5_regs = r, md5_buf = rest, md5_count = md5_count h + length data\<rparr>)"

text \<open>
  Padding: a byte 0x80, zero bytes up to 56 modulo 64, and the length of the message in
  bits as 8 bytes. The digest is computed on a copy, so \<^verbatim>\<open>hexdigest\<close> leaves the
  object as it is.
\<close>

definition md5_padding :: "nat \<Rightarrow> bytes" where
  "md5_padding n =
     0x80 # replicate ((119 - n mod 64) mod 64) 0 @ length_bytes (of_nat (8 * n))"

definition md5_digest :: "md5 \<Rightarrow> bytes" where
  "md5_digest h =
     (case fst (md5_absorb (md5_regs h) (md5_buf h @ md5_padding (md5_count h))) of
        (a, b, c, d) \<Rightarrow> word_bytes a @ word_bytes b @ word_bytes c @ word_bytes d)"

definition hexdigit :: "nat \<Rightarrow> char" where
  "hexdigit n = ''0123456789abcdef'' ! (n mod 16)"

definition hex_of_byte :: "byte \<Rightarrow> string" where
  "hex_of_byte b = [hexdigit (unat b div 16), hexdigit (unat b mod 16)]"

definition md5_hexdigest :: "md5 \<Rightarrow> string" where
  "md5_hexdigest h = concat (map hex_of_byte (md5_digest h))"


section \<open>Files, network and console\<close>

text \<open>
  A \<^verbatim>\<open>pathlib.Path\<close> is the list of its components, relative to the working directory
  (the empty path). A path holds a directory, a file with its bytes, or nothing; \<open>denied\<close>
  tells where the system refuses to create or write an entry. The remote end answers a
  URL in one of three ways: it serves a body, it cannot be reached, or the transfer breaks
  off after some bytes. Everything the script does to the outside is written to the
  \<open>trace\<close>, in order.
\<close>

type_synonym path = "string list"

datatype node = Dir | File bytes

datatype exn =
    FileExistsError string
  | FileNotFoundError string
  | NotADirectoryError string
  | IsADirectoryError string
  | PermissionError string
  | URLError string
  | ContentTooShortError string

datatype response =
    Served bytes
  | Unreachable string
  | Interrupted bytes string

datatype effect =
    Mkdir path
  | Urlretrieve string path
  | Open_rb path
  | Print string

record world =
  fs :: "path \<rightharpoonup> node"
  net :: "string \<Rightarrow> response"
  denied :: "path \<Rightarrow> bool"
  cwd :: path
  trace :: "effect list"

fun str_exn :: "exn \<Rightarrow> string" where
  "str_exn (FileExistsError m) = m"
| "str_exn (FileNotFoundError m) = m"
| "str_exn (NotADirectoryError m) = m"
| "str_exn (IsADirectoryError m) = m"
| "str_exn (PermissionError m) = m"
| "str_exn (URLError m) = m"
| "str_exn (ContentTooShortError m) = m"

fun str_path :: "path \<Rightarrow> string" where
  "str_path [] = ''.''"
| "str_path [c] = c"
| "str_path (c # cs) = c @ ''/'' @ str_path cs"

definition absolute :: "world \<Rightarrow> path \<Rightarrow> string" where
  "absolute w p = concat (map (\<lambda>c. ''/'' @ c) (cwd w @ p))"

definition emit :: "effect \<Rightarrow> world \<Rightarrow> world" where
  "emit e w = w\<lparr>trace := trace w @ [e]\<rparr>"

text \<open>\<^verbatim>\<open>print(s, end=e)\<close> writes \<open>s\<close> and then \<open>e\<close>; \<^verbatim>\<open>print(s)\<close> ends with a newline.\<close>

definition newline :: string where
  "newline = [CHR 0x0A]"

definition print :: "string \<Rightarrow> string \<Rightarrow> world \<Rightarrow> world" where
  "print s e w = emit (Print (s @ e)) w"

text \<open>The check mark and the ballot cross of the messages, as their UTF-8 bytes.\<close>

definition tick :: string where
  "tick = [CHR 0xE2, CHR 0x9C, CHR 0x93]"

definition cross :: string where
  "cross = [CHR 0xE2, CHR 0x9C, CHR 0x97]"

definition is_dir :: "world \<Rightarrow> path \<Rightarrow> bool" where
  "is_dir w p = (p = [] \<or> fs w p = Some Dir)"

text \<open>
  \<^verbatim>\<open>Path.mkdir(parents=True, exist_ok=True)\<close>: a directory that is there is left alone,
  a file in its place or in the place of a parent is an error, missing parents are made
  first, and the system may refuse to create an entry.
\<close>

function make_dirs :: "path \<Rightarrow> world \<Rightarrow> exn + world" where
  "make_dirs p w =
     (if is_dir w p then Inr w
      else if fs w p \<noteq> None then Inl (FileExistsError (str_path p))
      else if \<not> is_dir w (butlast p) \<and> fs w (butlast p) \<noteq> None
        then Inl (NotADirectoryError (str_path p))
      else (case make_dirs (butlast p) w of
              Inl e \<Rightarrow> Inl e
            | Inr w1 \<Rightarrow>
                if denied w1 p then Inl (PermissionError (str_path p))
                else Inr (w1\<lparr>fs := (fs w1)(p \<mapsto> Dir)\<rparr>)))"
  by pat_completeness auto
termination
  by (relation "measure (\<lambda>(p, w). length p)") (auto simp: is_dir_def)

declare make_dirs.simps [simp del]

definition mkdir :: "path \<Rightarrow> world \<Rightarrow> (exn + unit) \<times> world" where
  "mkdir p w =
     (let w1 = emit (Mkdir p) w
      in case make_dirs p w1 of
           Inl e \<Rightarrow> (Inl e, w1)
         | Inr w2 \<Rightarrow> (Inr (), w2))"

text \<open>
  \<^verbatim>\<open>urlretrieve(url, path)\<close> opens the URL, then the file for writing, and copies the
  body. A transfer that ends early leaves the bytes received so far and raises.
\<close>

definition open_wb :: "path \<Rightarrow> world \<Rightarrow> exn + world" where
  "open_wb p w =
     (if is_dir w p then Inl (IsADirectoryError (str_path p))
      else if \<not> is_dir w (butlast p) then Inl (FileNotFoundError (str_path p))
      else if denied w p then Inl (PermissionError (str_path p))
      else Inr (w\<lparr>fs := (fs w)(p \<mapsto> File [])\<rparr>))"

definition write_all :: "path \<Rightarrow> bytes \<Rightarrow> world \<Rightarrow> world" where
  "write_all p body w = w\<lparr>fs := (fs w)(p \<mapsto> File body)\<rparr>"

definition urlretrieve :: "string \<Rightarrow> path \<Rightarrow> world \<Rightarrow> (exn + unit) \<times> world" where
  "urlretrieve url p w =
     (let w1 = emit (Urlretrieve url p) w
      in case net w1 url of
           Unreachable m \<Rightarrow> (Inl (URLError m), w1)
         | Served body \<Rightarrow>
             (case open_wb p w1 of
                Inl e \<Rightarrow> (Inl e, w1)
              | Inr w2 \<Rightarrow> (Inr (), write_all p body w2))
         | Interrupted part m \<Rightarrow>
             (case open_wb p w1 of
                Inl e \<Rightarrow> (Inl e, w1)
              | Inr w2 \<Rightarrow> (Inl (ContentTooShortError m), write_all p part w2)))"

section \<open>The script\<close>

definition BASE_URL :: string where
  "BASE_URL = ''https://biobank.ndph.ox.ac.uk/synthetic_dataset/tabular/''"

definition OUTPUT_DIR :: path where
  "OUTPUT_DIR = [''data'']"

definition FILES :: "string list" where
  "FILES =
    [''41260_HES_SimDates.tsv'',
     ''41262_HES_SimDates.tsv'',
     ''41263_HES_SimDates.tsv'',
     ''41280_HES_SimDates.tsv'',
     ''41281_HES_SimDates.tsv'',
     ''41282_HES_SimDates.tsv'',
     ''41283_HES_SimDates.tsv'']"

definition CHECKSUMS :: "string \<rightharpoonup> string" where
  "CHECKSUMS = map_of
    [(''41260_HES_SimDates.tsv'', ''4ff448b195ad417c3ae1324312782c30''),
     (''41262_HES_SimDates.tsv'', ''46aced37adea430907b81b8370f4718b''),
     (''41263_HES_SimDates.tsv'', ''5fc75c1d4d221d4e8366d4ce7920e7f8''),
     (''41280_HES_SimDates.tsv'', ''60007421300548e3a03c317e3392e5d1''),
     (''41281_HES_SimDates.tsv'', ''3b5a706c475050c5a64ad4359d224309''),
     (''41282_HES_SimDates.tsv'', ''7592c86dbb8502ca0630a763aa85be47''),
     (''41283_HES_SimDates.tsv'', ''5c35335d9e91f1eb4c0dca92213f6cb9'')]"

subsection \<open>calculate_md5\<close>

text \<open>
  An open file is its contents and the read position. \<^verbatim>\<open>f.read(n)\<close> returns at most
  \<open>n\<close> bytes from the position on and moves it; at the end of the file it returns the empty
  bytes, which is the sentinel that stops \<^verbatim>\<open>iter(lambda: f.read(4096), b"")\<close>.
\<close>

record handle =
  contents :: bytes
  pos :: nat

definition open_rb :: "path \<Rightarrow> world \<Rightarrow> exn + handle" where
  "open_rb p w =
     (if is_dir w p then Inl (IsADirectoryError (str_path p))
      else case fs w p of
             Some (File body) \<Rightarrow> Inr \<lparr>contents = body, pos = 0\<rparr>
           | _ \<Rightarrow> Inl (FileNotFoundError (str_path p)))"

definition fread :: "handle \<Rightarrow> nat \<Rightarrow> bytes \<times> handle" where
  "fread f n =
     (let chunk = take n (drop (pos f) (contents f))
      in (chunk, f\<lparr>pos := pos f + length chunk\<rparr>))"

function hash_chunks :: "md5 \<Rightarrow> handle \<Rightarrow> md5" where
  "hash_chunks md5_hash f =
     (let chunk = fst (fread f 4096); f1 = snd (fread f 4096)
      in if chunk = [] then md5_hash else hash_chunks (md5_update md5_hash chunk) f1)"
  by pat_completeness auto
termination
  by (relation "measure (\<lambda>(h, f). length (contents f) - pos f)") (auto simp: fread_def Let_def)

declare hash_chunks.simps [simp del]

definition calculate_md5 :: "path \<Rightarrow> world \<Rightarrow> (exn + string) \<times> world" where
  "calculate_md5 filepath w =
     (let w1 = emit (Open_rb filepath) w
      in case open_rb filepath w1 of
           Inl e \<Rightarrow> (Inl e, w1)
         | Inr f \<Rightarrow> (Inr (md5_hexdigest (hash_chunks md5_new f)), w1))"

subsection \<open>download_file\<close>

text \<open>
  \<^verbatim>\<open>output_dir / filename\<close> is the path with one more component, which it is for a
  name without a slash, as those of the catalog. The module constant \<^verbatim>\<open>CHECKSUMS\<close>
  is a parameter of \<open>download_file_with\<close>, so that
  a table other than the shipped one can be put in its place; \<open>download_file\<close> is the
  function of the script. The \<^verbatim>\<open>except Exception\<close> clause is \<open>handler\<close>: whatever
  \<^verbatim>\<open>urlretrieve\<close> or \<^verbatim>\<open>calculate_md5\<close> raises ends there. Writing to the console is
  taken to succeed, and an interrupt from outside the process (which is no
  \<^verbatim>\<open>Exception\<close>) is not part of the model.
\<close>

definition handler :: "exn \<Rightarrow> world \<Rightarrow> bool \<times> world" where
  "handler e w = (False, print (cross @ newline @ ''  Error: '' @ str_exn e) newline w)"

definition download_file_with ::
    "(string \<rightharpoonup> string) \<Rightarrow> string \<Rightarrow> path \<Rightarrow> world \<Rightarrow> bool \<times> world" where
  "download_file_with checksums filename output_dir w =
     (let url = BASE_URL @ filename;
          output_path = output_dir @ [filename];
          w1 = print (''Downloading '' @ filename @ ''...'') '' '' w
      in case urlretrieve url output_path w1 of
           (Inl e, w2) \<Rightarrow> handler e w2
         | (Inr _, w2) \<Rightarrow>
             let w3 = print tick newline w2
             in (case checksums filename of
                   Some expected \<Rightarrow>
                     let w4 = print ''  Verifying checksum...'' '' '' w3
                     in (case calculate_md5 output_path w4 of
                           (Inl e, w5) \<Rightarrow> handler e w5
                         | (Inr calculated, w5) \<Rightarrow>
                             if calculated = expected then (True, print tick newline w5)
                             else (False,
                               print (cross @ '' (expected '' @ expected @ '', got '' @ calculated @ '')'')
                                 newline w5))
                 | None \<Rightarrow>
                     (True, print ''  Warning: No checksum available for verification'' newline w3)))"

definition download_file :: "string \<Rightarrow> path \<Rightarrow> world \<Rightarrow> bool \<times> world" where
  "download_file = download_file_with CHECKSUMS"

subsection \<open>main\<close>

text \<open>
  The loop of \<open>main\<close> over the catalog, with the list \<^verbatim>\<open>results\<close> it appends to.
\<close>

fun download_all ::
    "(string \<rightharpoonup> string) \<Rightarrow> string list \<Rightarrow> (string \<times> bool) list \<Rightarrow> world
      \<Rightarrow> (string \<times> bool) list \<times> world" where
  "download_all checksums [] results w = (results, w)"
| "download_all checksums (filename # rest) results w =
     (case download_file_with checksums filename OUTPUT_DIR w of
        (success, w1) \<Rightarrow>
          download_all checksums rest (results @ [(filename, success)]) (print [] newline w1))"

function str_nat :: "nat \<Rightarrow> string" where
  "str_nat n =
     (if n < 10 then [''0123456789'' ! n] else str_nat (n div 10) @ [''0123456789'' ! (n mod 10)])"
  by pat_completeness auto
termination
  by (relation "measure id") auto

declare str_nat.simps [simp del]

fun print_statuses :: "(string \<times> bool) list \<Rightarrow> world \<Rightarrow> world" where
  "print_statuses [] w = w"
| "print_statuses ((filename, success) # rest) w =
     print_statuses rest
       (print ((if success then tick @ '' Success'' else cross @ '' Failed'') @ '': '' @ filename)
          newline w)"

text \<open>
  How a run ends. An exception of \<^verbatim>\<open>mkdir\<close> is caught nowhere and leaves \<open>main\<close>
  before the list of results exists. Otherwise the summary is printed, and the run ends with
  \<^verbatim>\<open>sys.exit(1)\<close> or by returning, which is status 0. The module constants
  \<^verbatim>\<open>FILES\<close> and \<^verbatim>\<open>CHECKSUMS\<close> are parameters of \<open>main_with\<close>; \<open>main\<close> is the function
  of the script.
\<close>

datatype outcome =
    Raised exn
  | Finished "(string \<times> bool) list" int

definition main_with ::
    "string list \<Rightarrow> (string \<rightharpoonup> string) \<Rightarrow> world \<Rightarrow> outcome \<times> world" where
  "main_with files checksums w =
     (case mkdir OUTPUT_DIR w of
        (Inl e, w1) \<Rightarrow> (Raised e, w1)
      | (Inr _, w1) \<Rightarrow>
          let w2 = print (''Downloading UK Biobank files to '' @ absolute w1 OUTPUT_DIR @ newline)
                     newline w1
          in (case download_all checksums files [] w2 of
                (results, w3) \<Rightarrow>
                  let w4 = print (replicate 60 CHR ''='') newline w3;
                      w5 = print ''Download Summary:'' newline w4;
                      w6 = print (replicate 60 CHR ''='') newline w5;
                      successful = length (filter snd results);
                      failed = int (length results) - int successful;
                      w7 = print_statuses results w6;
                      w8 = print (replicate 60 CHR ''='') newline w7;
                      w9 = print (''Total: '' @ str_nat successful @ ''/'' @ str_nat (length results)
                                    @ '' files downloaded successfully'') newline w8
                  in if failed > 0 then (Finished results 1, w9) else (Finished results 0, w9)))"

definition main :: "world \<Rightarrow> outcome \<times> world" where
  "main = main_with FILES CHECKSUMS"


fun results_of :: "outcome \<Rightarrow> (string \<times> bool) list" where
  "results_of (Raised e) = []"
| "results_of (Finished results status) = results"

text \<open>What a call added to the trace.\<close>

definition emitted :: "world \<Rightarrow> world \<Rightarrow> effect list" where
  "emitted w w' = drop (length (trace w)) (trace w')"

text \<open>The external calls in a trace, by kind.\<close>

fun fetched :: "effect list \<Rightarrow> (string \<times> path) list" where
  "fetched [] = []"
| "fetched (Urlretrieve url p # t) = (url, p) # fetched t"
| "fetched (e # t) = fetched t"

fun made :: "effect list \<Rightarrow> path list" where
  "made [] = []"
| "made (Mkdir p # t) = p # made t"
| "made (e # t) = made t"

fun hashed :: "effect list \<Rightarrow> path list" where
  "hashed [] = []"
| "hashed (Open_rb p # t) = p # hashed t"
| "hashed (e # t) = hashed t"

text \<open>\<^verbatim>\<open>str.lower\<close> on ASCII text.\<close>

definition lower_char :: "char \<Rightarrow> char" where
  "lower_char c =
     (case map_of (zip ''ABCDEFGHIJKLMNOPQRSTUVWXYZ'' ''abcdefghijklmnopqrstuvwxyz'') c of
        Some l \<Rightarrow> l
      | None \<Rightarrow> c)"

definition lower :: "string \<Rightarrow> string" where
  "lower s = map lower_char s"

subsection \<open>Sample worlds\<close>

text \<open>
  An empty working directory with a host that cannot be reached; the same with a host that
  serves one body for every URL; with a file in the place of \<^verbatim>\<open>data\<close>; and with a
  system that refuses every write.
\<close>

definition offline :: world where
  "offline =
     \<lparr>fs = Map.empty, net = (\<lambda>url. Unreachable ''timed out''), denied = (\<lambda>p. False),
      cwd = [''home''], trace = []\<rparr>"

definition serving :: "bytes \<Rightarrow> world" where
  "serving body = offline\<lparr>net := (\<lambda>url. Served body)\<rparr>"



definition ready :: "bytes \<Rightarrow> world" where
  "ready body = (serving body)\<lparr>fs := [OUTPUT_DIR \<mapsto> Dir]\<rparr>"

text \<open>
  Sample checksum tables for a file \<^verbatim>\<open>a.tsv\<close>: the digest of the empty file, the same
  digest in uppercase, and that one lowercased.
\<close>

definition empty_digest :: "string \<rightharpoonup> string" where
  "empty_digest = [''a.tsv'' \<mapsto> ''d41d8cd98f00b204e9800998ecf8427e'']"

definition upper_digest :: "string \<rightharpoonup> string" where
  "upper_digest = [''a.tsv'' \<mapsto> ''D41D8CD98F00B204E9800998ECF8427E'']"

definition lowered_digest :: "string \<rightharpoonup> string" where
  "lowered_digest = [''a.tsv'' \<mapsto> lower ''D41D8CD98F00B204E9800998ECF8427E'']"

text \<open>The line of the branch without a checksum, as it reaches the console.\<close>

definition warning :: effect where
  "warning = Print (''  Warning: No checksum available for verification'' @ newline)"

section \<open>The hasher\<close>

text \<open>Feeding an MD5 object in pieces is feeding it the concatenation.\<close>

lemma md5_absorb_append:
  "md5_absorb r (xs @ ys) = (case md5_absorb r xs of (r1, rest) \<Rightarrow> md5_absorb r1 (rest @ ys))"
proof (induction r xs rule: md5_absorb.induct)
  case (1 r xs)
  show ?case
  proof (cases "64 \<le> length xs")
    case True
    then have "md5_absorb r (xs @ ys) = md5_absorb (md5_compress r (take 64 xs)) (drop 64 xs @ ys)"
      by (subst md5_absorb.simps) simp
    also have "\<dots> = (case md5_absorb (md5_compress r (take 64 xs)) (drop 64 xs) of
                       (r1, rest) \<Rightarrow> md5_absorb r1 (rest @ ys))"
      using "1.IH" [OF True] .
    also have "md5_absorb (md5_compress r (take 64 xs)) (drop 64 xs) = md5_absorb r xs"
      using True by (subst (2) md5_absorb.simps) simp
    finally show ?thesis .
  next
    case False
    then have "md5_absorb r xs = (r, xs)"
      by (subst md5_absorb.simps) simp
    then show ?thesis by simp
  qed
qed

lemma md5_update_append: "md5_update (md5_update h xs) ys = md5_update h (xs @ ys)"
  by (simp add: md5_update_def md5_absorb_append [of _ "md5_buf h @ xs" ys, simplified]
        split: prod.splits)

lemma md5_update_new_Nil: "md5_update md5_new [] = md5_new"
  by (simp add: md5_update_def md5_new_def md5_absorb.simps)

lemma hash_chunks_rest:
  "hash_chunks h f =
     (if drop (pos f) (contents f) = [] then h else md5_update h (drop (pos f) (contents f)))"
proof (induction h f rule: hash_chunks.induct)
  case (1 h f)
  define rest where "rest = drop (pos f) (contents f)"
  show ?case
  proof (cases "rest = []")
    case True
    then show ?thesis
      by (subst hash_chunks.simps) (simp add: fread_def rest_def)
  next
    case False
    define f1 where "f1 = snd (fread f 4096)"
    have chunk: "fst (fread f 4096) = take 4096 rest"
      by (simp add: fread_def rest_def Let_def)
    have ne: "take 4096 rest \<noteq> []"
      using False by (cases rest) simp_all
    have rest1: "drop (pos f1) (contents f1) = drop 4096 rest"
    proof -
      have "pos f1 = pos f + min (length rest) 4096" and "contents f1 = contents f"
        by (simp_all add: f1_def fread_def Let_def rest_def)
      then show ?thesis
        by (cases "length rest \<le> 4096") (simp_all add: rest_def min_def add.commute)
    qed
    have ne': "fst (fread f 4096) \<noteq> []"
      using ne chunk by simp
    note IH = "1.IH" [OF refl refl ne', unfolded chunk, folded f1_def]
    have "hash_chunks h f = hash_chunks (md5_update h (take 4096 rest)) f1"
      using ne by (subst hash_chunks.simps) (simp add: chunk f1_def Let_def)
    also have "\<dots> = (if drop 4096 rest = [] then md5_update h (take 4096 rest)
                      else md5_update (md5_update h (take 4096 rest)) (drop 4096 rest))"
      unfolding IH rest1 ..
    also have "\<dots> = md5_update h rest"
      by (simp add: md5_update_append)
    finally show ?thesis
      using False by (simp add: rest_def)
  qed
qed

lemma hash_chunks_whole:
  "hash_chunks md5_new \<lparr>contents = body, pos = 0\<rparr> = md5_update md5_new body"
  by (simp add: hash_chunks_rest md5_update_new_Nil)

lemma length_word_bytes: "length (word_bytes x) = 4"
  by (simp add: word_bytes_def)

lemma length_md5_digest: "length (md5_digest h) = 16"
  by (simp add: md5_digest_def length_word_bytes split: prod.splits)

lemma length_concat_hex: "length (concat (map hex_of_byte bs)) = 2 * length bs"
  by (induction bs) (simp_all add: hex_of_byte_def)

lemma length_md5_hexdigest: "length (md5_hexdigest h) = 32"
  by (simp add: md5_hexdigest_def length_concat_hex length_md5_digest)

lemma hexdigit_lower: "hexdigit n \<in> set ''0123456789abcdef''"
  unfolding hexdigit_def by (rule nth_mem) simp

lemma set_hex_of_byte: "set (hex_of_byte b) \<subseteq> set ''0123456789abcdef''"
  using hexdigit_lower [of "unat b div 16"] hexdigit_lower [of "unat b mod 16"]
  by (simp add: hex_of_byte_def)

lemma set_concat_map_subset:
  "(\<And>x. x \<in> set xs \<Longrightarrow> set (f x) \<subseteq> S) \<Longrightarrow> set (concat (map f xs)) \<subseteq> S"
  by (induction xs) auto

lemma set_md5_hexdigest: "set (md5_hexdigest h) \<subseteq> set ''0123456789abcdef''"
  unfolding md5_hexdigest_def by (rule set_concat_map_subset) (rule set_hex_of_byte)

text \<open>The model against the test suite of RFC 1321, evaluated step by step.\<close>

lemmas upt_unroll = upt_rec [of _ "numeral n"] for n

lemma replicate_unroll: "replicate (numeral n) (b :: byte) = b # replicate (pred_numeral n) b"
  by (simp add: numeral_eq_Suc)

lemma md5_step_eval:
  "md5_step m i (a, b, c, d) =
     (d, word_of_nat (unat (b + rotl32 (word_of_nat (unat
            (md5_mix i b c d + a + md5_K ! i + m ! md5_index i))) (md5_S ! i))), b, c)"
  by (simp add: md5_step_def)

lemmas md5_eval =
  md5_step_eval md5_mix_def md5_index_def rotl32_def md5_K_def md5_S_def md5_init_def
  md5_padding_def length_bytes_def word_bytes_def md5_compress_def md5_absorb.simps
  md5_digest_def md5_hexdigest_def hex_of_byte_def hexdigit_def md5_new_def md5_update_def
  upt_unroll replicate_unroll

lemma md5_empty: "md5_hexdigest (md5_update md5_new []) = ''d41d8cd98f00b204e9800998ecf8427e''"
  by (simp add: md5_eval)

lemma md5_abc:
  "md5_hexdigest (md5_update md5_new [0x61, 0x62, 0x63]) = ''900150983cd24fb0d6963f7d28e17f72''"
  by (simp add: md5_eval)

section \<open>calculate_md5\<close>

lemma open_rb_file:
  "p \<noteq> [] \<Longrightarrow> fs w p = Some (File body) \<Longrightarrow> open_rb p w = Inr \<lparr>contents = body, pos = 0\<rparr>"
  by (simp add: open_rb_def is_dir_def)

lemma calculate_md5_file:
  "p \<noteq> [] \<Longrightarrow> fs w p = Some (File body) \<Longrightarrow>
   calculate_md5 p w = (Inr (md5_hexdigest (md5_update md5_new body)), emit (Open_rb p) w)"
  by (simp add: calculate_md5_def Let_def open_rb_file emit_def hash_chunks_whole)

section \<open>Effects of the operations\<close>

lemma emit_simps [simp]:
  "trace (emit e w) = trace w @ [e]" "fs (emit e w) = fs w" "net (emit e w) = net w"
  "denied (emit e w) = denied w" "cwd (emit e w) = cwd w"
  by (simp_all add: emit_def)

lemma print_simps [simp]:
  "trace (print s e w) = trace w @ [Print (s @ e)]" "fs (print s e w) = fs w"
  "net (print s e w) = net w" "denied (print s e w) = denied w" "cwd (print s e w) = cwd w"
  by (simp_all add: print_def)

lemma is_dir_cong: "fs w' = fs w \<Longrightarrow> is_dir w' p = is_dir w p"
  by (simp add: is_dir_def)

lemma is_dir_emit [simp]: "is_dir (emit e w) p = is_dir w p" "is_dir (print s e' w) p = is_dir w p"
  by (simp_all add: is_dir_def)

lemma fetched_append [simp]: "fetched (a @ b) = fetched a @ fetched b"
  by (induction a rule: fetched.induct) simp_all

lemma made_append [simp]: "made (a @ b) = made a @ made b"
  by (induction a rule: made.induct) simp_all

lemma hashed_append [simp]: "hashed (a @ b) = hashed a @ hashed b"
  by (induction a rule: hashed.induct) simp_all

lemma emitted_append: "trace w' = trace w @ t \<Longrightarrow> emitted w w' = t"
  by (simp add: emitted_def)

subsection \<open>urlretrieve\<close>

lemma urlretrieve_trace [simp]:
  "trace (snd (urlretrieve url p w)) = trace w @ [Urlretrieve url p]"
  by (simp add: urlretrieve_def open_wb_def write_all_def Let_def
        split: response.splits sum.splits)

lemma urlretrieve_env [simp]:
  "net (snd (urlretrieve url p w)) = net w"
  "denied (snd (urlretrieve url p w)) = denied w"
  "cwd (snd (urlretrieve url p w)) = cwd w"
  by (simp_all add: urlretrieve_def open_wb_def write_all_def Let_def
        split: response.splits sum.splits)

lemma urlretrieve_frame: "q \<noteq> p \<Longrightarrow> fs (snd (urlretrieve url p w)) q = fs w q"
  by (simp add: urlretrieve_def open_wb_def write_all_def Let_def
        split: response.splits sum.splits)

lemma urlretrieve_ok_iff:
  "fst (urlretrieve url p w) = Inr () \<longleftrightarrow>
     (\<exists>body. net w url = Served body) \<and> \<not> is_dir w p \<and> is_dir w (butlast p) \<and> \<not> denied w p"
  by (auto simp: urlretrieve_def open_wb_def write_all_def Let_def
        split: response.splits sum.splits)

lemma urlretrieve_ok_fs:
  "fst (urlretrieve url p w) = Inr () \<Longrightarrow> net w url = Served body \<Longrightarrow>
   fs (snd (urlretrieve url p w)) = (fs w)(p \<mapsto> File body)"
  by (auto simp: urlretrieve_def open_wb_def write_all_def Let_def
        split: response.splits sum.splits if_splits)

lemma urlretrieve_print [simp]:
  "fst (urlretrieve url p (print s e w)) = fst (urlretrieve url p w)"
  "fs (snd (urlretrieve url p (print s e w))) = fs (snd (urlretrieve url p w))"
  by (simp_all add: urlretrieve_def open_wb_def write_all_def Let_def
        split: response.splits sum.splits)

subsection \<open>download_file\<close>

lemma download_file_with_alt:
  "download_file_with cs f d w =
     (let w1 = print (''Downloading '' @ f @ ''...'') '' '' w;
          r = fst (urlretrieve (BASE_URL @ f) (d @ [f]) w1);
          w2 = snd (urlretrieve (BASE_URL @ f) (d @ [f]) w1)
      in case r of
           Inl e \<Rightarrow> handler e w2
         | Inr u \<Rightarrow>
             (case cs f of
                Some expected \<Rightarrow>
                  (case calculate_md5 (d @ [f])
                          (print ''  Verifying checksum...'' '' '' (print tick newline w2)) of
                     (Inl e, w5) \<Rightarrow> handler e w5
                   | (Inr calculated, w5) \<Rightarrow>
                       if calculated = expected then (True, print tick newline w5)
                       else (False,
                         print (cross @ '' (expected '' @ expected @ '', got '' @ calculated @ '')'')
                           newline w5))
              | None \<Rightarrow>
                  (True, print ''  Warning: No checksum available for verification'' newline
                     (print tick newline w2))))"
  unfolding download_file_with_def Let_def case_prod_beta by (rule refl)

lemma download_file_fetch_failed:
  assumes "fst (urlretrieve (BASE_URL @ f) (d @ [f]) w) = Inl e"
  shows "fst (download_file_with cs f d w) = False"
    and "trace (snd (download_file_with cs f d w)) =
           trace w @ [Print ((''Downloading '' @ f @ ''...'') @ '' ''),
                      Urlretrieve (BASE_URL @ f) (d @ [f]),
                      Print ((cross @ newline @ ''  Error: '' @ str_exn e) @ newline)]"
  using assms by (simp_all add: download_file_with_alt Let_def handler_def)

lemma download_file_unverified:
  assumes "fst (urlretrieve (BASE_URL @ f) (d @ [f]) w) = Inr ()" and "cs f = None"
  shows "fst (download_file_with cs f d w) = True"
    and "trace (snd (download_file_with cs f d w)) =
           trace w @ [Print ((''Downloading '' @ f @ ''...'') @ '' ''),
                      Urlretrieve (BASE_URL @ f) (d @ [f]),
                      Print (tick @ newline),
                      Print (''  Warning: No checksum available for verification'' @ newline)]"
  using assms by (simp_all add: download_file_with_alt Let_def)

lemma download_file_verified:
  assumes "fst (urlretrieve (BASE_URL @ f) (d @ [f]) w) = Inr ()"
      and "net w (BASE_URL @ f) = Served body" and "cs f = Some expected"
  shows "fst (download_file_with cs f d w) = (md5_hexdigest (md5_update md5_new body) = expected)"
    and "trace (snd (download_file_with cs f d w)) =
           trace w @ [Print ((''Downloading '' @ f @ ''...'') @ '' ''),
                      Urlretrieve (BASE_URL @ f) (d @ [f]),
                      Print (tick @ newline),
                      Print (''  Verifying checksum...'' @ '' ''),
                      Open_rb (d @ [f]),
                      Print (if md5_hexdigest (md5_update md5_new body) = expected
                             then tick @ newline
                             else (cross @ '' (expected '' @ expected @ '', got ''
                                     @ md5_hexdigest (md5_update md5_new body) @ '')'') @ newline)]"
    and "fs (snd (download_file_with cs f d w)) = (fs w)((d @ [f]) \<mapsto> File body)"
    and "net (snd (download_file_with cs f d w)) = net w
         \<and> denied (snd (download_file_with cs f d w)) = denied w
         \<and> cwd (snd (download_file_with cs f d w)) = cwd w"
proof -
  let ?w1 = "print (''Downloading '' @ f @ ''...'') '' '' w"
  let ?w2 = "snd (urlretrieve (BASE_URL @ f) (d @ [f]) ?w1)"
  let ?w4 = "print ''  Verifying checksum...'' '' '' (print tick newline ?w2)"
  have written: "fs (snd (urlretrieve (BASE_URL @ f) (d @ [f]) w)) = (fs w)((d @ [f]) \<mapsto> File body)"
    by (rule urlretrieve_ok_fs [OF assms(1,2)])
  note c = calculate_md5_file [where body = body and p = "d @ [f]"]
  have alt: "download_file_with cs f d w =
      (if md5_hexdigest (md5_update md5_new body) = expected
       then (True, print tick newline (emit (Open_rb (d @ [f])) ?w4))
       else (False, print (cross @ '' (expected '' @ expected @ '', got ''
                             @ md5_hexdigest (md5_update md5_new body) @ '')'') newline
                      (emit (Open_rb (d @ [f])) ?w4)))"
    unfolding download_file_with_alt Let_def using assms(1,3) by (simp add: c written)
  show "fst (download_file_with cs f d w) = (md5_hexdigest (md5_update md5_new body) = expected)"
    unfolding alt by simp
  show "trace (snd (download_file_with cs f d w)) =
           trace w @ [Print ((''Downloading '' @ f @ ''...'') @ '' ''),
                      Urlretrieve (BASE_URL @ f) (d @ [f]),
                      Print (tick @ newline),
                      Print (''  Verifying checksum...'' @ '' ''),
                      Open_rb (d @ [f]),
                      Print (if md5_hexdigest (md5_update md5_new body) = expected
                             then tick @ newline
                             else (cross @ '' (expected '' @ expected @ '', got ''
                                     @ md5_hexdigest (md5_update md5_new body) @ '')'') @ newline)]"
    unfolding alt by simp
  show "fs (snd (download_file_with cs f d w)) = (fs w)((d @ [f]) \<mapsto> File body)"
    unfolding alt using written by simp
  show "net (snd (download_file_with cs f d w)) = net w
         \<and> denied (snd (download_file_with cs f d w)) = denied w
         \<and> cwd (snd (download_file_with cs f d w)) = cwd w"
    unfolding alt by simp
qed

lemma download_file_failed_eq:
  assumes "fst (urlretrieve (BASE_URL @ f) (d @ [f]) w) = Inl e"
  shows "download_file_with cs f d w =
           handler e (snd (urlretrieve (BASE_URL @ f) (d @ [f])
                             (print (''Downloading '' @ f @ ''...'') '' '' w)))"
  using assms by (simp add: download_file_with_alt Let_def)

lemma download_file_unverified_eq:
  assumes "fst (urlretrieve (BASE_URL @ f) (d @ [f]) w) = Inr ()" and "cs f = None"
  shows "download_file_with cs f d w =
           (True, print ''  Warning: No checksum available for verification'' newline
                    (print tick newline
                       (snd (urlretrieve (BASE_URL @ f) (d @ [f])
                          (print (''Downloading '' @ f @ ''...'') '' '' w)))))"
  using assms by (simp add: download_file_with_alt Let_def)

lemma download_file_cases [case_names failed unverified verified]:
  obtains e where "fst (urlretrieve (BASE_URL @ f) (d @ [f]) w) = Inl e"
  | "fst (urlretrieve (BASE_URL @ f) (d @ [f]) w) = Inr ()" and "cs f = None"
  | body expected where "fst (urlretrieve (BASE_URL @ f) (d @ [f]) w) = Inr ()"
      and "net w (BASE_URL @ f) = Served body" and "cs f = Some expected"
proof (cases "fst (urlretrieve (BASE_URL @ f) (d @ [f]) w)")
  case (Inl e)
  then show ?thesis by (rule that(1))
next
  case (Inr u)
  then have ok: "fst (urlretrieve (BASE_URL @ f) (d @ [f]) w) = Inr ()" by simp
  then obtain body where "net w (BASE_URL @ f) = Served body"
    using urlretrieve_ok_iff by blast
  with ok show ?thesis
    by (cases "cs f") (auto intro: that(2) that(3))
qed

lemma download_file_fs:
  "fs (snd (download_file_with cs f d w)) = fs (snd (urlretrieve (BASE_URL @ f) (d @ [f]) w))"
proof (cases rule: download_file_cases [where f = f and d = d and w = w and cs = cs])
  case (failed e)
  then show ?thesis by (simp add: download_file_failed_eq handler_def)
next
  case unverified
  then show ?thesis by (simp add: download_file_unverified_eq)
next
  case (verified body expected)
  then show ?thesis by (simp add: download_file_verified(3) [where cs = cs] urlretrieve_ok_fs)
qed

lemma download_file_frame:
  "q \<noteq> d @ [f] \<Longrightarrow> fs (snd (download_file_with cs f d w)) q = fs w q"
  by (simp add: download_file_fs urlretrieve_frame)

lemma download_file_env [simp]:
  "net (snd (download_file_with cs f d w)) = net w"
  "denied (snd (download_file_with cs f d w)) = denied w"
  "cwd (snd (download_file_with cs f d w)) = cwd w"
proof -
  have "net (snd (download_file_with cs f d w)) = net w
      \<and> denied (snd (download_file_with cs f d w)) = denied w
      \<and> cwd (snd (download_file_with cs f d w)) = cwd w"
  proof (cases rule: download_file_cases [where f = f and d = d and w = w and cs = cs])
    case (failed e)
    then show ?thesis by (simp add: download_file_failed_eq handler_def)
  next
    case unverified
    then show ?thesis by (simp add: download_file_unverified_eq)
  next
    case (verified body expected)
    then show ?thesis by (rule download_file_verified(4))
  qed
  then show "net (snd (download_file_with cs f d w)) = net w"
    and "denied (snd (download_file_with cs f d w)) = denied w"
    and "cwd (snd (download_file_with cs f d w)) = cwd w"
    by simp_all
qed

lemma download_file_trace:
  "\<exists>t. trace (snd (download_file_with cs f d w)) = trace w @ t
       \<and> made t = [] \<and> fetched t = [(BASE_URL @ f, d @ [f])]
       \<and> (cs f \<noteq> None \<longrightarrow> warning \<notin> set t)"
proof (cases rule: download_file_cases [where f = f and d = d and w = w and cs = cs])
  case (failed e)
  show ?thesis
    using download_file_fetch_failed(2) [where cs = cs, OF failed]
    by (simp add: warning_def cross_def)
next
  case unverified
  show ?thesis
    using download_file_unverified(2) [where cs = cs, OF unverified] unverified(2)
    by simp
next
  case (verified body expected)
  show ?thesis
    using download_file_verified(2) [where cs = cs, OF verified]
    by (simp add: warning_def cross_def tick_def)
qed

subsection \<open>The loop\<close>

lemma download_all_names:
  "map fst (fst (download_all cs files rs w)) = map fst rs @ files"
  by (induction files arbitrary: rs w) (simp_all split: prod.splits)

lemma download_all_keeps:
  "\<exists>rs'. fst (download_all cs files rs w) = rs @ rs'"
proof (induction files arbitrary: rs w)
  case Nil
  then show ?case by simp
next
  case (Cons g files)
  obtain b w1 where s: "download_file_with cs g OUTPUT_DIR w = (b, w1)"
    by fastforce
  obtain rs' where "fst (download_all cs files (rs @ [(g, b)]) (print [] newline w1))
      = (rs @ [(g, b)]) @ rs'"
    using Cons.IH by blast
  then have "fst (download_all cs (g # files) rs w) = rs @ ((g, b) # rs')"
    by (simp add: s)
  then show ?case ..
qed

lemma download_all_env_all:
  "net (snd (download_all cs files rs w)) = net w
   \<and> denied (snd (download_all cs files rs w)) = denied w
   \<and> cwd (snd (download_all cs files rs w)) = cwd w"
proof (induction files arbitrary: rs w)
  case Nil
  then show ?case by simp
next
  case (Cons g files)
  obtain b w1 where s: "download_file_with cs g OUTPUT_DIR w = (b, w1)"
    by fastforce
  then have e: "net w1 = net w" "denied w1 = denied w" "cwd w1 = cwd w"
    using download_file_env [of cs g OUTPUT_DIR w] by simp_all
  show ?case
    using Cons.IH [of "rs @ [(g, b)]" "print [] newline w1"] by (simp add: s e)
qed

lemma download_all_env [simp]:
  "net (snd (download_all cs files rs w)) = net w"
  "denied (snd (download_all cs files rs w)) = denied w"
  "cwd (snd (download_all cs files rs w)) = cwd w"
  using download_all_env_all [of cs files rs w] by simp_all

lemma download_all_frame:
  "q \<notin> (\<lambda>f. OUTPUT_DIR @ [f]) ` set files \<Longrightarrow> fs (snd (download_all cs files rs w)) q = fs w q"
proof (induction files arbitrary: rs w)
  case Nil
  then show ?case by simp
next
  case (Cons g files)
  obtain b w1 where s: "download_file_with cs g OUTPUT_DIR w = (b, w1)"
    by fastforce
  have "fs w1 q = fs w q"
    using download_file_frame [of q OUTPUT_DIR g cs w] Cons.prems s by simp
  then show ?case
    using Cons by (simp add: s)
qed

lemma download_all_trace:
  "\<exists>t. trace (snd (download_all cs files rs w)) = trace w @ t
       \<and> made t = [] \<and> fetched t = map (\<lambda>f. (BASE_URL @ f, OUTPUT_DIR @ [f])) files
       \<and> (set files \<subseteq> dom cs \<longrightarrow> warning \<notin> set t)"
proof (induction files arbitrary: rs w)
  case Nil
  then show ?case by simp
next
  case (Cons g files)
  obtain b w1 where s: "download_file_with cs g OUTPUT_DIR w = (b, w1)"
    by fastforce
  obtain t1 where t1: "trace w1 = trace w @ t1" "made t1 = []"
      "fetched t1 = [(BASE_URL @ g, OUTPUT_DIR @ [g])]" "cs g \<noteq> None \<longrightarrow> warning \<notin> set t1"
    using download_file_trace [of cs g OUTPUT_DIR w] s by auto
  obtain t2 where t2: "trace (snd (download_all cs files (rs @ [(g, b)]) (print [] newline w1)))
        = trace (print [] newline w1) @ t2" "made t2 = []"
      "fetched t2 = map (\<lambda>f. (BASE_URL @ f, OUTPUT_DIR @ [f])) files"
      "set files \<subseteq> dom cs \<longrightarrow> warning \<notin> set t2"
    using Cons.IH [of "rs @ [(g, b)]" "print [] newline w1"] by auto
  show ?case
    apply (rule exI [of _ "t1 @ [Print ([] @ newline)] @ t2"])
    using t1 t2 by (auto simp: s warning_def newline_def)
qed

lemma download_all_emitted:
  "trace (snd (download_all cs files rs w)) = trace w @ emitted w (snd (download_all cs files rs w))"
  "made (emitted w (snd (download_all cs files rs w))) = []"
  "fetched (emitted w (snd (download_all cs files rs w)))
     = map (\<lambda>f. (BASE_URL @ f, OUTPUT_DIR @ [f])) files"
  "set files \<subseteq> dom cs \<Longrightarrow> warning \<notin> set (emitted w (snd (download_all cs files rs w)))"
proof -
  obtain t where t: "trace (snd (download_all cs files rs w)) = trace w @ t" "made t = []"
      "fetched t = map (\<lambda>f. (BASE_URL @ f, OUTPUT_DIR @ [f])) files"
      "set files \<subseteq> dom cs \<longrightarrow> warning \<notin> set t"
    using download_all_trace [of cs files rs w] by blast
  have e: "emitted w (snd (download_all cs files rs w)) = t"
    using t(1) by (rule emitted_append)
  show "trace (snd (download_all cs files rs w)) = trace w @ emitted w (snd (download_all cs files rs w))"
    and "made (emitted w (snd (download_all cs files rs w))) = []"
    and "fetched (emitted w (snd (download_all cs files rs w)))
          = map (\<lambda>f. (BASE_URL @ f, OUTPUT_DIR @ [f])) files"
    and "set files \<subseteq> dom cs \<Longrightarrow> warning \<notin> set (emitted w (snd (download_all cs files rs w)))"
    using t by (simp_all add: e)
qed

subsection \<open>The summary\<close>

lemma print_statuses_env [simp]:
  "fs (print_statuses rs w) = fs w" "net (print_statuses rs w) = net w"
  "denied (print_statuses rs w) = denied w" "cwd (print_statuses rs w) = cwd w"
  by (induction rs w rule: print_statuses.induct) simp_all

lemma print_statuses_trace:
  "\<exists>t. trace (print_statuses rs w) = trace w @ t \<and> made t = [] \<and> fetched t = []
       \<and> warning \<notin> set t"
proof (induction rs w rule: print_statuses.induct)
  case (1 w)
  then show ?case by simp
next
  case (2 filename success rest w)
  then obtain t where t: "trace (print_statuses ((filename, success) # rest) w)
      = trace w @ Print (((if success then tick @ '' Success'' else cross @ '' Failed'')
                           @ '': '' @ filename) @ newline) # t"
      "made t = []" "fetched t = []" "warning \<notin> set t"
    by auto
  show ?case
    apply (rule exI [of _ "Print (((if success then tick @ '' Success'' else cross @ '' Failed'')
                           @ '': '' @ filename) @ newline) # t"])
    using t by (simp add: warning_def tick_def cross_def)
qed

lemma print_statuses_emitted:
  "trace (print_statuses rs w) = trace w @ emitted w (print_statuses rs w)"
  "made (emitted w (print_statuses rs w)) = []"
  "fetched (emitted w (print_statuses rs w)) = []"
  "warning \<notin> set (emitted w (print_statuses rs w))"
proof -
  obtain t where t: "trace (print_statuses rs w) = trace w @ t" "made t = []" "fetched t = []"
      "warning \<notin> set t"
    using print_statuses_trace [of rs w] by blast
  have e: "emitted w (print_statuses rs w) = t"
    using t(1) by (rule emitted_append)
  show "trace (print_statuses rs w) = trace w @ emitted w (print_statuses rs w)"
    and "made (emitted w (print_statuses rs w)) = []"
    and "fetched (emitted w (print_statuses rs w)) = []"
    and "warning \<notin> set (emitted w (print_statuses rs w))"
    using t by (simp_all add: e)
qed

subsection \<open>mkdir\<close>

lemma make_dirs_OUTPUT_DIR:
  "make_dirs OUTPUT_DIR w =
     (if fs w OUTPUT_DIR = Some Dir then Inr w
      else if fs w OUTPUT_DIR \<noteq> None then Inl (FileExistsError ''data'')
      else if denied w OUTPUT_DIR then Inl (PermissionError ''data'')
      else Inr (w\<lparr>fs := (fs w)(OUTPUT_DIR \<mapsto> Dir)\<rparr>))"
  unfolding OUTPUT_DIR_def
  by (simp add: make_dirs.simps [of "[''data'']" w] make_dirs.simps [of "[]" w] is_dir_def)

lemma mkdir_OUTPUT_DIR:
  "mkdir OUTPUT_DIR w =
     (if fs w OUTPUT_DIR = Some Dir then (Inr (), emit (Mkdir OUTPUT_DIR) w)
      else if fs w OUTPUT_DIR \<noteq> None then (Inl (FileExistsError ''data''), emit (Mkdir OUTPUT_DIR) w)
      else if denied w OUTPUT_DIR then (Inl (PermissionError ''data''), emit (Mkdir OUTPUT_DIR) w)
      else (Inr (), (emit (Mkdir OUTPUT_DIR) w)\<lparr>fs := (fs w)(OUTPUT_DIR \<mapsto> Dir)\<rparr>))"
  by (simp add: mkdir_def Let_def make_dirs_OUTPUT_DIR)

lemma mkdir_trace [simp]: "trace (snd (mkdir OUTPUT_DIR w)) = trace w @ [Mkdir OUTPUT_DIR]"
  by (simp add: mkdir_OUTPUT_DIR)

lemma mkdir_env [simp]:
  "net (snd (mkdir OUTPUT_DIR w)) = net w" "denied (snd (mkdir OUTPUT_DIR w)) = denied w"
  "cwd (snd (mkdir OUTPUT_DIR w)) = cwd w"
  by (simp_all add: mkdir_OUTPUT_DIR)

lemma mkdir_frame: "q \<noteq> OUTPUT_DIR \<Longrightarrow> fs (snd (mkdir OUTPUT_DIR w)) q = fs w q"
  by (simp add: mkdir_OUTPUT_DIR)

lemma mkdir_ok_is_dir:
  "fst (mkdir OUTPUT_DIR w) = Inr () \<Longrightarrow> is_dir (snd (mkdir OUTPUT_DIR w)) OUTPUT_DIR"
  by (simp add: mkdir_OUTPUT_DIR is_dir_def split: if_splits)

lemma mkdir_ok_iff:
  "fst (mkdir OUTPUT_DIR w) = Inr () \<longleftrightarrow>
     fs w OUTPUT_DIR = Some Dir \<or> (fs w OUTPUT_DIR = None \<and> \<not> denied w OUTPUT_DIR)"
  by (auto simp: mkdir_OUTPUT_DIR)

lemma mkdir_outcome: "(\<exists>e. fst (mkdir OUTPUT_DIR w) = Inl e) \<or> fst (mkdir OUTPUT_DIR w) = Inr ()"
  by (cases "fst (mkdir OUTPUT_DIR w)") auto

subsection \<open>main\<close>

lemma some_failed:
  "(length (filter snd rs) < length rs) = (\<not> list_all snd rs)"
proof (cases "list_all snd rs")
  case True
  then have "filter snd rs = rs"
    by (simp add: list_all_iff)
  with True show ?thesis by simp
next
  case False
  then obtain r where "r \<in> set rs" and "\<not> snd r"
    by (auto simp: list_all_iff)
  then have "length (filter snd rs) < length rs"
    by (rule length_filter_less)
  with False show ?thesis by simp
qed

lemma failed_positive:
  "(int (length rs) - int (length (filter snd rs)) > 0) = (\<not> list_all snd rs)"
  using some_failed [of rs] by simp

lemma not_in_summary:
  "a \<noteq> x \<Longrightarrow> b \<noteq> x \<Longrightarrow> c \<noteq> x \<Longrightarrow> x \<notin> set t \<Longrightarrow> x \<notin> set ([a, b, a] @ t @ [a, c])"
  by auto

lemma main_with_raised:
  assumes "fst (mkdir OUTPUT_DIR w) = Inl e"
  shows "main_with files cs w = (Raised e, snd (mkdir OUTPUT_DIR w))"
  using assms unfolding main_with_def case_prod_beta by simp

lemma main_with_finished:
  assumes "fst (mkdir OUTPUT_DIR w) = Inr ()"
  shows "\<exists>W. fs W = fs (snd (mkdir OUTPUT_DIR w)) \<and> net W = net w \<and> denied W = denied w
           \<and> (\<exists>s. trace W = trace w @ [Mkdir OUTPUT_DIR, Print s] \<and> Print s \<noteq> warning)
           \<and> fst (main_with files cs w)
               = Finished (fst (download_all cs files [] W))
                   (if list_all snd (fst (download_all cs files [] W)) then 0 else 1)
           \<and> fs (snd (main_with files cs w)) = fs (snd (download_all cs files [] W))
           \<and> (\<exists>t. trace (snd (main_with files cs w)) = trace (snd (download_all cs files [] W)) @ t
                  \<and> made t = [] \<and> fetched t = [] \<and> warning \<notin> set t)"
proof -
  define W where "W = print (''Downloading UK Biobank files to ''
      @ absolute (snd (mkdir OUTPUT_DIR w)) OUTPUT_DIR @ newline) newline (snd (mkdir OUTPUT_DIR w))"
  define rs where "rs = fst (download_all cs files [] W)"
  define W3 where "W3 = snd (download_all cs files [] W)"
  define W6 where "W6 = print (replicate 60 CHR ''='') newline
      (print ''Download Summary:'' newline (print (replicate 60 CHR ''='') newline W3))"
  define total where "total = ''Total: '' @ str_nat (length (filter snd rs)) @ ''/''
      @ str_nat (length rs) @ '' files downloaded successfully''"
  define W9 where "W9 = print total newline
      (print (replicate 60 CHR ''='') newline (print_statuses rs W6))"
  have m: "main_with files cs w = (Finished rs (if list_all snd rs then 0 else 1), W9)"
    using assms
    unfolding main_with_def case_prod_beta Let_def W_def rs_def W3_def W6_def total_def W9_def
    by (simp add: some_failed)
  have 1: "fs W = fs (snd (mkdir OUTPUT_DIR w)) \<and> net W = net w \<and> denied W = denied w"
    by (simp add: W_def)
  have 2: "\<exists>s. trace W = trace w @ [Mkdir OUTPUT_DIR, Print s] \<and> Print s \<noteq> warning"
    by (simp add: W_def warning_def)
  have eq: "replicate 60 CHR ''='' @ newline \<noteq> ''  Warning: No checksum available for verification'' @ newline"
    by (simp add: numeral_eq_Suc)
  have 3: "trace W9 = trace W3 @ ([Print (replicate 60 CHR ''='' @ newline),
        Print (''Download Summary:'' @ newline), Print (replicate 60 CHR ''='' @ newline)]
        @ emitted W6 (print_statuses rs W6)
        @ [Print (replicate 60 CHR ''='' @ newline), Print (total @ newline)])"
    by (simp add: W9_def print_statuses_emitted(1) [of rs W6]) (simp add: W6_def)
  have 4: "made ([Print (replicate 60 CHR ''='' @ newline),
        Print (''Download Summary:'' @ newline), Print (replicate 60 CHR ''='' @ newline)]
        @ emitted W6 (print_statuses rs W6)
        @ [Print (replicate 60 CHR ''='' @ newline), Print (total @ newline)]) = []"
    by (simp add: print_statuses_emitted)
  have 5: "fetched ([Print (replicate 60 CHR ''='' @ newline),
        Print (''Download Summary:'' @ newline), Print (replicate 60 CHR ''='' @ newline)]
        @ emitted W6 (print_statuses rs W6)
        @ [Print (replicate 60 CHR ''='' @ newline), Print (total @ newline)]) = []"
    by (simp add: print_statuses_emitted)
  have 6: "warning \<notin> set ([Print (replicate 60 CHR ''='' @ newline),
        Print (''Download Summary:'' @ newline), Print (replicate 60 CHR ''='' @ newline)]
        @ emitted W6 (print_statuses rs W6)
        @ [Print (replicate 60 CHR ''='' @ newline), Print (total @ newline)])"
  proof -
    have a: "Print (replicate 60 CHR ''='' @ newline) \<noteq> warning"
      using eq by (simp add: warning_def)
    have b: "Print (''Download Summary:'' @ newline) \<noteq> warning"
      by (simp add: warning_def)
    have c: "Print (total @ newline) \<noteq> warning"
      by (simp add: warning_def total_def)
    have d: "warning \<notin> set (emitted W6 (print_statuses rs W6))"
      by (rule print_statuses_emitted(4))
    from a b c d show ?thesis
      by (rule not_in_summary)
  qed
  have 7: "fs W9 = fs W3"
    by (simp add: W9_def W6_def)
  show ?thesis
    apply (rule exI [of _ W])
    using 1 2 3 4 5 6 7 unfolding m rs_def W3_def [symmetric] by (simp only: fst_conv snd_conv) blast
qed



lemma main_with_emitted:
  "\<exists>t. trace (snd (main_with files cs w)) = trace w @ Mkdir OUTPUT_DIR # t \<and> made t = []
       \<and> fetched t = (if fst (mkdir OUTPUT_DIR w) = Inr ()
                       then map (\<lambda>f. (BASE_URL @ f, OUTPUT_DIR @ [f])) files else [])
       \<and> (set files \<subseteq> dom cs \<longrightarrow> warning \<notin> set t)"
proof (cases "fst (mkdir OUTPUT_DIR w)")
  case (Inl e)
  then show ?thesis by (simp add: main_with_raised)
next
  case (Inr u)
  then have ok: "fst (mkdir OUTPUT_DIR w) = Inr ()" by simp
  obtain W s t where W: "trace W = trace w @ [Mkdir OUTPUT_DIR, Print s]" "Print s \<noteq> warning"
      "trace (snd (main_with files cs w)) = trace (snd (download_all cs files [] W)) @ t"
      "made t = []" "fetched t = []" "warning \<notin> set t"
    using main_with_finished [OF ok, of files cs] by blast
  let ?d = "emitted W (snd (download_all cs files [] W))"
  have "trace (snd (main_with files cs w)) = trace w @ Mkdir OUTPUT_DIR # (Print s # ?d @ t)"
    using W(1,3) download_all_emitted(1) [of cs files "[]" W] by simp
  moreover have "made (Print s # ?d @ t) = []"
    using W(4) by (simp add: download_all_emitted(2))
  moreover have "fetched (Print s # ?d @ t) = map (\<lambda>f. (BASE_URL @ f, OUTPUT_DIR @ [f])) files"
    using W(5) by (simp add: download_all_emitted(3))
  moreover have "set files \<subseteq> dom cs \<longrightarrow> warning \<notin> set (Print s # ?d @ t)"
    using W(2,6) download_all_emitted(4) [of files cs W "[]"] by auto
  ultimately show ?thesis
    using ok by auto
qed

lemma distinct_FILES: "distinct FILES"
  by (simp add: FILES_def)


lemma download_all_keeps_file:
  assumes "distinct files" and "f \<in> set files" and "is_dir w OUTPUT_DIR"
      and "net w (BASE_URL @ f) = Served body" and "\<not> denied w (OUTPUT_DIR @ [f])"
      and "fs w (OUTPUT_DIR @ [f]) \<noteq> Some Dir" and "cs f = Some expected"
  shows "fs (snd (download_all cs files rs w)) (OUTPUT_DIR @ [f]) = Some (File body)
       \<and> (f, md5_hexdigest (md5_update md5_new body) = expected)
            \<in> set (fst (download_all cs files rs w))"
  using assms
proof (induction files arbitrary: rs w)
  case Nil
  then show ?case by simp
next
  case (Cons g files)
  obtain b w1 where s: "download_file_with cs g OUTPUT_DIR w = (b, w1)"
    by fastforce
  let ?W = "print [] newline w1"
  show ?case
  proof (cases "g = f")
    case True
    have ok: "fst (urlretrieve (BASE_URL @ f) (OUTPUT_DIR @ [f]) w) = Inr ()"
      using Cons.prems by (simp add: urlretrieve_ok_iff is_dir_def)
    note v = download_file_verified [where cs = cs, OF ok Cons.prems(4) Cons.prems(7)]
    have b: "b = (md5_hexdigest (md5_update md5_new body) = expected)"
      using v(1) s True by simp
    have "fs ?W (OUTPUT_DIR @ [f]) = Some (File body)"
      using v(3) s True by simp
    moreover have "OUTPUT_DIR @ [f] \<notin> (\<lambda>f. OUTPUT_DIR @ [f]) ` set files"
      using Cons.prems(1) True by auto
    ultimately have 1: "fs (snd (download_all cs files (rs @ [(g, b)]) ?W)) (OUTPUT_DIR @ [f])
        = Some (File body)"
      by (simp add: download_all_frame)
    obtain rs' where "fst (download_all cs files (rs @ [(g, b)]) ?W) = (rs @ [(g, b)]) @ rs'"
      using download_all_keeps by blast
    then have 2: "(f, md5_hexdigest (md5_update md5_new body) = expected)
        \<in> set (fst (download_all cs files (rs @ [(g, b)]) ?W))"
      using True b by simp
    from 1 2 show ?thesis
      by (simp add: s)
  next
    case False
    then have "OUTPUT_DIR @ [f] \<noteq> OUTPUT_DIR @ [g]" and "OUTPUT_DIR \<noteq> OUTPUT_DIR @ [g]"
      by simp_all
    then have same: "fs w1 (OUTPUT_DIR @ [f]) = fs w (OUTPUT_DIR @ [f])" "fs w1 OUTPUT_DIR = fs w OUTPUT_DIR"
      using download_file_frame [of _ OUTPUT_DIR g cs w] s by simp_all
    have env: "net w1 = net w" "denied w1 = denied w"
      using download_file_env [of cs g OUTPUT_DIR w] s by simp_all
    have "fs (snd (download_all cs files (rs @ [(g, b)]) ?W)) (OUTPUT_DIR @ [f]) = Some (File body)
       \<and> (f, md5_hexdigest (md5_update md5_new body) = expected)
            \<in> set (fst (download_all cs files (rs @ [(g, b)]) ?W))"
    proof (rule Cons.IH)
      show "distinct files" using Cons.prems(1) by simp
      show "f \<in> set files" using Cons.prems(2) False by simp
      show "is_dir ?W OUTPUT_DIR" using Cons.prems(3) same(2) by (simp add: is_dir_def)
      show "net ?W (BASE_URL @ f) = Served body" using Cons.prems(4) env by simp
      show "\<not> denied ?W (OUTPUT_DIR @ [f])" using Cons.prems(5) env by simp
      show "fs ?W (OUTPUT_DIR @ [f]) \<noteq> Some Dir" using Cons.prems(6) same(1) by simp
      show "cs f = Some expected" by (rule Cons.prems(7))
    qed
    then show ?thesis
      by (simp add: s)
  qed
qed

lemma main_with_keeps_file:
  assumes "fst (mkdir OUTPUT_DIR w) = Inr ()" and "distinct files" and "f \<in> set files"
      and "net w (BASE_URL @ f) = Served body" and "\<not> denied w (OUTPUT_DIR @ [f])"
      and "fs w (OUTPUT_DIR @ [f]) \<noteq> Some Dir" and "cs f = Some expected"
  shows "fs (snd (main_with files cs w)) (OUTPUT_DIR @ [f]) = Some (File body)
       \<and> (f, md5_hexdigest (md5_update md5_new body) = expected)
            \<in> set (results_of (fst (main_with files cs w)))"
proof -
  obtain W where W: "fs W = fs (snd (mkdir OUTPUT_DIR w))" "net W = net w" "denied W = denied w"
      "fst (main_with files cs w)
         = Finished (fst (download_all cs files [] W))
             (if list_all snd (fst (download_all cs files [] W)) then 0 else 1)"
      "fs (snd (main_with files cs w)) = fs (snd (download_all cs files [] W))"
    using main_with_finished [OF assms(1), of files cs] by blast
  have "is_dir W OUTPUT_DIR"
    using mkdir_ok_is_dir [OF assms(1)] W(1) by (simp add: is_dir_def)
  moreover have "fs W (OUTPUT_DIR @ [f]) \<noteq> Some Dir"
    using assms(6) by (simp add: W(1) mkdir_frame)
  ultimately have "fs (snd (download_all cs files [] W)) (OUTPUT_DIR @ [f]) = Some (File body)
       \<and> (f, md5_hexdigest (md5_update md5_new body) = expected)
            \<in> set (fst (download_all cs files [] W))"
    using assms by (intro download_all_keeps_file) (simp_all add: W(2,3))
  then show ?thesis
    by (simp add: W(4,5))
qed

lemma download_all_head:
  "\<exists>later. fst (download_all cs (f # rest) rs w)
              = rs @ (f, fst (download_file_with cs f OUTPUT_DIR w)) # later
          \<and> map fst later = rest"
proof -
  obtain b w1 where s: "download_file_with cs f OUTPUT_DIR w = (b, w1)"
    by fastforce
  obtain later where l: "fst (download_all cs rest (rs @ [(f, b)]) (print [] newline w1))
      = (rs @ [(f, b)]) @ later"
    using download_all_keeps by blast
  have "map fst (fst (download_all cs rest (rs @ [(f, b)]) (print [] newline w1)))
      = map fst (rs @ [(f, b)]) @ rest"
    by (rule download_all_names)
  then have "map fst later = rest"
    unfolding l by simp
  then show ?thesis
    using l by (simp add: s)
qed


subsection \<open>Sample runs\<close>




lemma mkdir_ready: "fst (mkdir OUTPUT_DIR (ready body)) = Inr ()"
  by (simp add: mkdir_OUTPUT_DIR ready_def serving_def offline_def)




lemma fetch_ready:
  "fst (urlretrieve (BASE_URL @ f) (OUTPUT_DIR @ [f]) (ready body)) = Inr ()"
  by (simp add: urlretrieve_ok_iff is_dir_def ready_def serving_def offline_def)

lemma net_ready: "net (ready body) url = Served body"
  by (simp add: ready_def serving_def offline_def)




lemma checksum_41260:
  "CHECKSUMS ''41260_HES_SimDates.tsv'' = Some ''4ff448b195ad417c3ae1324312782c30''"
  by (simp add: CHECKSUMS_def)

lemma in_FILES_41260: "''41260_HES_SimDates.tsv'' \<in> set FILES"
  by (simp add: FILES_def)

lemma free_ready:
  "\<not> denied (ready body) p" "fs (ready body) (OUTPUT_DIR @ [f]) \<noteq> Some Dir"
  by (simp_all add: ready_def serving_def offline_def)

section \<open>The claims\<close>











text \<open>
  C5. For a file without an expected checksum whose fetch succeeds, the result is success
  whatever the bytes fetched are, and the file is not opened for hashing; that success is
  what the loop records.
\<close>

theorem unlisted_file_succeeds_unverified:
  "(cs filename = None
    \<and> fst (urlretrieve (BASE_URL @ filename) (d @ [filename]) w) = Inr () \<longrightarrow>
     fst (download_file_with cs filename d w) = True
     \<and> hashed (emitted w (snd (download_file_with cs filename d w))) = []
     \<and> emitted w (snd (download_file_with cs filename d w))
         = [Print ((''Downloading '' @ filename @ ''...'') @ '' ''),
            Urlretrieve (BASE_URL @ filename) (d @ [filename]),
            Print (tick @ newline),
            warning])
   \<and> (cs filename = None
      \<and> fst (urlretrieve (BASE_URL @ filename) (OUTPUT_DIR @ [filename]) w) = Inr () \<longrightarrow>
      (\<exists>later. fst (download_all cs (filename # rest) rs w) = rs @ (filename, True) # later
                \<and> map fst later = rest))"
proof (rule conjI)
  show "cs filename = None
    \<and> fst (urlretrieve (BASE_URL @ filename) (d @ [filename]) w) = Inr () \<longrightarrow>
     fst (download_file_with cs filename d w) = True
     \<and> hashed (emitted w (snd (download_file_with cs filename d w))) = []
     \<and> emitted w (snd (download_file_with cs filename d w))
         = [Print ((''Downloading '' @ filename @ ''...'') @ '' ''),
            Urlretrieve (BASE_URL @ filename) (d @ [filename]),
            Print (tick @ newline),
            warning]"
  proof (intro impI, elim conjE)
    assume a: "cs filename = None"
      "fst (urlretrieve (BASE_URL @ filename) (d @ [filename]) w) = Inr ()"
    note u = download_file_unverified [where cs = cs, OF a(2) a(1)]
    have e: "emitted w (snd (download_file_with cs filename d w))
           = [Print ((''Downloading '' @ filename @ ''...'') @ '' ''),
              Urlretrieve (BASE_URL @ filename) (d @ [filename]),
              Print (tick @ newline),
              warning]"
      unfolding warning_def by (rule emitted_append) (rule u(2))
    have "hashed (emitted w (snd (download_file_with cs filename d w))) = []"
      unfolding e by (simp add: warning_def)
    with u(1) e show "fst (download_file_with cs filename d w) = True
       \<and> hashed (emitted w (snd (download_file_with cs filename d w))) = []
       \<and> emitted w (snd (download_file_with cs filename d w))
           = [Print ((''Downloading '' @ filename @ ''...'') @ '' ''),
              Urlretrieve (BASE_URL @ filename) (d @ [filename]),
              Print (tick @ newline),
              warning]"
      by blast
  qed
  show "cs filename = None
      \<and> fst (urlretrieve (BASE_URL @ filename) (OUTPUT_DIR @ [filename]) w) = Inr () \<longrightarrow>
      (\<exists>later. fst (download_all cs (filename # rest) rs w) = rs @ (filename, True) # later
                \<and> map fst later = rest)"
  proof (intro impI, elim conjE)
    assume a: "cs filename = None"
      "fst (urlretrieve (BASE_URL @ filename) (OUTPUT_DIR @ [filename]) w) = Inr ()"
    note u = download_file_unverified(1) [where cs = cs, OF a(2) a(1)]
    show "\<exists>later. fst (download_all cs (filename # rest) rs w) = rs @ (filename, True) # later
                \<and> map fst later = rest"
      using download_all_head [of cs filename rest rs w] unfolding u .
  qed
qed

theorem unlisted_file_succeeds_unverified_witness:
  "empty_digest ''b.tsv'' = None
   \<and> fst (download_file_with empty_digest ''b.tsv'' OUTPUT_DIR (ready [0x61, 0x62, 0x63])) = True
   \<and> fst (download_file_with empty_digest ''b.tsv'' OUTPUT_DIR (ready [])) = True
   \<and> hashed (emitted (ready []) (snd (download_file_with empty_digest ''b.tsv'' OUTPUT_DIR (ready [])))) = []
   \<and> fst (download_all empty_digest [''b.tsv''] [] (ready [])) = [(''b.tsv'', True)]"
  using unlisted_file_succeeds_unverified
      [of empty_digest "''b.tsv''" OUTPUT_DIR "ready [0x61, 0x62, 0x63]" "[]" "[]"]
    unlisted_file_succeeds_unverified [of empty_digest "''b.tsv''" OUTPUT_DIR "ready []" "[]" "[]"]
  by (simp add: fetch_ready empty_digest_def warning_def)

text \<open>
  C6 (as stated, it fails). The source compares with \<^verbatim>\<open>==\<close> and lowercases nothing: for
  an empty file, the uppercase digest of the empty file does not verify, its lowercase form
  does.
\<close>

theorem uppercase_digest_counterexample:
  "fst (download_file_with upper_digest ''a.tsv'' OUTPUT_DIR (ready [])) = False
   \<and> fst (download_file_with lowered_digest ''a.tsv'' OUTPUT_DIR (ready [])) = True"
proof -
  have l: "lower ''D41D8CD98F00B204E9800998ECF8427E'' = ''d41d8cd98f00b204e9800998ecf8427e''"
    by (simp add: lower_def lower_char_def)
  have "fst (download_file_with upper_digest ''a.tsv'' OUTPUT_DIR (ready [])) = False"
    using download_file_verified(1) [OF fetch_ready net_ready, of upper_digest "''a.tsv''"
        "''D41D8CD98F00B204E9800998ECF8427E''" "[]"]
    by (simp add: upper_digest_def md5_empty)
  moreover have "fst (download_file_with lowered_digest ''a.tsv'' OUTPUT_DIR (ready [])) = True"
    using download_file_verified(1) [OF fetch_ready net_ready, of lowered_digest "''a.tsv''"
        "''d41d8cd98f00b204e9800998ecf8427e''" "[]"]
    by (simp add: lowered_digest_def l md5_empty)
  ultimately show ?thesis by simp
qed

text \<open>
  C6 (amended). The comparison is the exact equality of the computed digest, which is
  lowercase hexadecimal, and the expected digest, with no change of case on either side: for
  a file whose fetch succeeds, the result is success if and only if the expected digest is
  the computed one character for character; an expected digest with a character outside
  \<^verbatim>\<open>0-9a-f\<close> never verifies, also when its lowercase form does.
\<close>

theorem digest_comparison_is_exact:
  "cs filename = Some expected
   \<and> fst (urlretrieve (BASE_URL @ filename) (d @ [filename]) w) = Inr ()
   \<and> net w (BASE_URL @ filename) = Served body \<longrightarrow>
     fst (download_file_with cs filename d w)
       = (expected = md5_hexdigest (md5_update md5_new body))
     \<and> (\<not> set expected \<subseteq> set ''0123456789abcdef'' \<longrightarrow>
          fst (download_file_with cs filename d w) = False)
     \<and> (lower expected = md5_hexdigest (md5_update md5_new body) \<and> expected \<noteq> lower expected \<longrightarrow>
          fst (download_file_with cs filename d w) = False
          \<and> fst (download_file_with (cs(filename \<mapsto> lower expected)) filename d w) = True)"
proof (intro impI, elim conjE)
  assume a: "cs filename = Some expected"
    "fst (urlretrieve (BASE_URL @ filename) (d @ [filename]) w) = Inr ()"
    "net w (BASE_URL @ filename) = Served body"
  let ?h = "md5_hexdigest (md5_update md5_new body)"
  have 1: "fst (download_file_with cs filename d w) = (expected = ?h)"
    using download_file_verified(1) [where cs = cs, OF a(2) a(3) a(1)] by auto
  have 2: "\<not> set expected \<subseteq> set ''0123456789abcdef'' \<longrightarrow>
      fst (download_file_with cs filename d w) = False"
  proof
    assume n: "\<not> set expected \<subseteq> set ''0123456789abcdef''"
    have "expected \<noteq> ?h"
    proof
      assume eq: "expected = ?h"
      from n [unfolded eq] show False
        by (rule notE) (rule set_md5_hexdigest)
    qed
    then show "fst (download_file_with cs filename d w) = False"
      unfolding 1 by (simp only: simp_thms)
  qed
  have "fst (download_file_with (cs(filename \<mapsto> lower expected)) filename d w)
      = (?h = lower expected)"
    by (rule download_file_verified(1) [OF a(2) a(3)]) simp
  then have 3: "lower expected = ?h \<and> expected \<noteq> lower expected \<longrightarrow>
      fst (download_file_with cs filename d w) = False
      \<and> fst (download_file_with (cs(filename \<mapsto> lower expected)) filename d w) = True"
    unfolding 1 by auto
  from 1 2 3 show "fst (download_file_with cs filename d w) = (expected = ?h)
     \<and> (\<not> set expected \<subseteq> set ''0123456789abcdef'' \<longrightarrow>
          fst (download_file_with cs filename d w) = False)
     \<and> (lower expected = ?h \<and> expected \<noteq> lower expected \<longrightarrow>
          fst (download_file_with cs filename d w) = False
          \<and> fst (download_file_with (cs(filename \<mapsto> lower expected)) filename d w) = True)"
    by blast
qed

theorem digest_comparison_is_exact_witness:
  "upper_digest ''a.tsv'' = Some ''D41D8CD98F00B204E9800998ECF8427E''
   \<and> lower ''D41D8CD98F00B204E9800998ECF8427E'' = md5_hexdigest (md5_update md5_new [])
   \<and> fst (download_file_with upper_digest ''a.tsv'' OUTPUT_DIR (ready [])) = False
   \<and> fst (download_file_with
             (upper_digest(''a.tsv'' \<mapsto> lower ''D41D8CD98F00B204E9800998ECF8427E''))
             ''a.tsv'' OUTPUT_DIR (ready [])) = True"
  using digest_comparison_is_exact
      [of upper_digest "''a.tsv''" "''D41D8CD98F00B204E9800998ECF8427E''" OUTPUT_DIR "ready []" "[]"]
  by (simp add: fetch_ready net_ready upper_digest_def md5_empty lower_def lower_char_def)

text \<open>
  C7. For every contents of a file, hashing it in blocks of 4096 bytes until the empty read
  gives the digest of the whole contents fed at once, and that digest is 32 characters of
  lowercase hexadecimal; \<open>calculate_md5\<close> returns it for a file that is there.
\<close>

theorem calculate_md5_chunked_is_whole:
  "md5_hexdigest (hash_chunks md5_new \<lparr>contents = body, pos = 0\<rparr>)
     = md5_hexdigest (md5_update md5_new body)
   \<and> length (md5_hexdigest (hash_chunks md5_new \<lparr>contents = body, pos = 0\<rparr>)) = 32
   \<and> set (md5_hexdigest (hash_chunks md5_new \<lparr>contents = body, pos = 0\<rparr>))
       \<subseteq> set ''0123456789abcdef''
   \<and> (p \<noteq> [] \<and> fs w p = Some (File body) \<longrightarrow>
       fst (calculate_md5 p w) = Inr (md5_hexdigest (md5_update md5_new body)))"
  using length_md5_hexdigest set_md5_hexdigest
  by (simp add: hash_chunks_whole calculate_md5_file del: set_simps)

theorem calculate_md5_chunked_is_whole_witness:
  "fst (calculate_md5 [''data'', ''abc.txt'']
          (offline\<lparr>fs := [[''data'', ''abc.txt''] \<mapsto> File [0x61, 0x62, 0x63]]\<rparr>))
     = Inr ''900150983cd24fb0d6963f7d28e17f72''"
  using calculate_md5_chunked_is_whole
    [of "[0x61, 0x62, 0x63]" "[''data'', ''abc.txt'']"
        "offline\<lparr>fs := [[''data'', ''abc.txt''] \<mapsto> File [0x61, 0x62, 0x63]]\<rparr>"]
  by (simp add: md5_abc)



text \<open>
  C9. When the digest of a fetched file differs from the expected one, the result is
  failure and the file system is as the fetch left it: the file holds the bytes fetched.
  It still does at the end of a run over a catalog without repetitions.
\<close>

theorem mismatched_file_is_left_as_fetched:
  "(cs filename = Some expected
    \<and> fst (urlretrieve (BASE_URL @ filename) (d @ [filename]) w) = Inr ()
    \<and> net w (BASE_URL @ filename) = Served body
    \<and> md5_hexdigest (md5_update md5_new body) \<noteq> expected \<longrightarrow>
      fst (download_file_with cs filename d w) = False
      \<and> fs (snd (download_file_with cs filename d w))
          = fs (snd (urlretrieve (BASE_URL @ filename) (d @ [filename]) w))
      \<and> fs (snd (download_file_with cs filename d w)) (d @ [filename]) = Some (File body))
   \<and> (fst (mkdir OUTPUT_DIR w) = Inr () \<and> distinct files \<and> filename \<in> set files
      \<and> cs filename = Some expected \<and> net w (BASE_URL @ filename) = Served body
      \<and> \<not> denied w (OUTPUT_DIR @ [filename]) \<and> fs w (OUTPUT_DIR @ [filename]) \<noteq> Some Dir
      \<and> md5_hexdigest (md5_update md5_new body) \<noteq> expected \<longrightarrow>
      (filename, False) \<in> set (results_of (fst (main_with files cs w)))
      \<and> fs (snd (main_with files cs w)) (OUTPUT_DIR @ [filename]) = Some (File body))"
proof (intro conjI impI; elim conjE)
  assume a: "cs filename = Some expected"
    "fst (urlretrieve (BASE_URL @ filename) (d @ [filename]) w) = Inr ()"
    "net w (BASE_URL @ filename) = Served body"
    "md5_hexdigest (md5_update md5_new body) \<noteq> expected"
  note v = download_file_verified [where cs = cs, OF a(2) a(3) a(1)]
  show "fst (download_file_with cs filename d w) = False"
    using v(1) a(4) by simp
  show "fs (snd (download_file_with cs filename d w))
          = fs (snd (urlretrieve (BASE_URL @ filename) (d @ [filename]) w))"
    by (rule download_file_fs)
  show "fs (snd (download_file_with cs filename d w)) (d @ [filename]) = Some (File body)"
    using v(3) by simp
next
  assume a: "fst (mkdir OUTPUT_DIR w) = Inr ()" "distinct files" "filename \<in> set files"
    "cs filename = Some expected" "net w (BASE_URL @ filename) = Served body"
    "\<not> denied w (OUTPUT_DIR @ [filename])" "fs w (OUTPUT_DIR @ [filename]) \<noteq> Some Dir"
    "md5_hexdigest (md5_update md5_new body) \<noteq> expected"
  note k = main_with_keeps_file [where cs = cs, OF a(1) a(2) a(3) a(5) a(6) a(7) a(4)]
  show "(filename, False) \<in> set (results_of (fst (main_with files cs w)))"
    using k a(8) by simp
  show "fs (snd (main_with files cs w)) (OUTPUT_DIR @ [filename]) = Some (File body)"
    using k by simp
qed

theorem mismatched_file_is_left_as_fetched_witness:
  "CHECKSUMS ''41260_HES_SimDates.tsv'' = Some ''4ff448b195ad417c3ae1324312782c30''
   \<and> md5_hexdigest (md5_update md5_new []) = ''d41d8cd98f00b204e9800998ecf8427e''
   \<and> fst (download_file ''41260_HES_SimDates.tsv'' OUTPUT_DIR (ready [])) = False
   \<and> fs (snd (download_file ''41260_HES_SimDates.tsv'' OUTPUT_DIR (ready [])))
        (OUTPUT_DIR @ [''41260_HES_SimDates.tsv'']) = Some (File [])
   \<and> (''41260_HES_SimDates.tsv'', False) \<in> set (results_of (fst (main (ready []))))
   \<and> fs (snd (main (ready []))) (OUTPUT_DIR @ [''41260_HES_SimDates.tsv'']) = Some (File [])"
  using mismatched_file_is_left_as_fetched
      [of CHECKSUMS "''41260_HES_SimDates.tsv''" "''4ff448b195ad417c3ae1324312782c30''"
          OUTPUT_DIR "ready []" "[]" FILES]
  by (simp add: main_def download_file_def mkdir_ready fetch_ready net_ready md5_empty
        distinct_FILES checksum_41260 in_FILES_41260 free_ready
        urlretrieve_ok_fs [OF fetch_ready net_ready])

text \<open>
  C10. Every filename of \<open>FILES\<close> has an entry in \<open>CHECKSUMS\<close>, and every such digest is 32
  characters of lowercase hexadecimal; so the line of the branch without a checksum is
  printed in no run of \<open>main\<close> and in no call of \<open>download_file\<close> on a file of the catalog.
\<close>

theorem catalog_is_fully_checksummed:
  "set FILES \<subseteq> dom CHECKSUMS
   \<and> list_all (\<lambda>f. case CHECKSUMS f of
                      None \<Rightarrow> False
                    | Some digest \<Rightarrow> length digest = 32 \<and> set digest \<subseteq> set ''0123456789abcdef'')
        FILES
   \<and> warning \<notin> set (emitted w (snd (main w)))
   \<and> (\<forall>f \<in> set FILES. warning \<notin> set (emitted w (snd (download_file f d w))))"
proof -
  have 1: "set FILES \<subseteq> dom CHECKSUMS"
    by (simp add: FILES_def CHECKSUMS_def)
  have 2: "list_all (\<lambda>f. case CHECKSUMS f of
                      None \<Rightarrow> False
                    | Some digest \<Rightarrow> length digest = 32 \<and> set digest \<subseteq> set ''0123456789abcdef'')
        FILES"
    by (simp add: FILES_def CHECKSUMS_def)
  obtain t where t: "trace (snd (main w)) = trace w @ Mkdir OUTPUT_DIR # t" "warning \<notin> set t"
    using main_with_emitted [of FILES CHECKSUMS w] 1 unfolding main_def by blast
  have "emitted w (snd (main w)) = Mkdir OUTPUT_DIR # t"
    using t(1) by (rule emitted_append)
  then have 3: "warning \<notin> set (emitted w (snd (main w)))"
    using t(2) by (simp add: warning_def)
  have 4: "\<forall>f \<in> set FILES. warning \<notin> set (emitted w (snd (download_file f d w)))"
  proof
    fix f
    assume "f \<in> set FILES"
    with 1 have c: "CHECKSUMS f \<noteq> None"
      by auto
    obtain t where t: "trace (snd (download_file f d w)) = trace w @ t"
        "CHECKSUMS f \<noteq> None \<longrightarrow> warning \<notin> set t"
      using download_file_trace [of CHECKSUMS f d w] unfolding download_file_def by blast
    have "emitted w (snd (download_file f d w)) = t"
      using t(1) by (rule emitted_append)
    then show "warning \<notin> set (emitted w (snd (download_file f d w)))"
      using t(2) c by simp
  qed
  from 1 2 3 4 show ?thesis by blast
qed

theorem catalog_is_fully_checksummed_witness:
  "warning \<notin> set (emitted (ready []) (snd (main (ready []))))
   \<and> warning \<notin> set (emitted (ready [])
        (snd (download_file ''41260_HES_SimDates.tsv'' OUTPUT_DIR (ready []))))
   \<and> warning \<notin> set (emitted offline (snd (main offline)))"
  using catalog_is_fully_checksummed [of "ready []" OUTPUT_DIR]
    catalog_is_fully_checksummed [of offline OUTPUT_DIR]
  by (simp add: FILES_def)

end
